theory Spec2Isabelle
  imports Complex_Main
begin

chapter \<open>CSV benchmarking services: circuit breaker, rate limiter, ingestion pipeline\<close>

section \<open>Ingestion pipeline (the CSV and Excel parser module, in elysia-csv-service/src/index.ts)\<close>

text \<open>
  Text is a list of characters, as the buffer decodes for ASCII input. A JavaScript number
  is an exact rational or one of the three non-finite values: the rounding of IEEE
  doubles is not modelled, sums and quotients are exact. A parsed record is the list of
  its (key, value) properties in insertion order; assigning to a key that exists
  replaces its value in place. (The order of the properties plays no part in validation,
  which reads them by name.)
\<close>

datatype number = Finite rat | PosInfinity | NegInfinity | NaN

datatype cell = Str string | Num number

type_synonym row = "(string \<times> cell) list"

fun row_set :: "row \<Rightarrow> string \<Rightarrow> cell \<Rightarrow> row" where
  "row_set [] key v = [(key, v)]"
| "row_set ((k, old) # rest) key v =
     (if k = key then (k, v) # rest else (k, old) # row_set rest key v)"

text \<open>
  \<open>String.prototype.trim\<close> on ASCII text: tab, line feed, vertical tab, form feed,
  carriage return and space are white space.
\<close>

definition isWhiteSpace :: "char \<Rightarrow> bool" where
  "isWhiteSpace c = (of_char c \<in> {9, 10, 11, 12, 13, 32 :: nat})"

definition trim :: "string \<Rightarrow> string" where
  "trim s = dropWhile isWhiteSpace (rev (dropWhile isWhiteSpace (rev s)))"

definition LF :: char where "LF = CHR 0x0A"
definition CR :: char where "CR = CHR 0x0D"
definition quote :: char where "quote = CHR 0x22"

text \<open>
  \<open>content.split(/\r?\n/)\<close>: a line ends at a line feed, and a carriage return
  right before that line feed belongs to the separator. \<open>cur\<close> is the line being read.
\<close>

fun split_lines_from :: "string \<Rightarrow> string \<Rightarrow> string list" where
  "split_lines_from cur [] = [cur]"
| "split_lines_from cur [c] = (if c = LF then [cur, []] else [cur @ [c]])"
| "split_lines_from cur (c # d # cs) =
     (if c = CR \<and> d = LF then cur # split_lines_from [] cs
      else if c = LF then cur # split_lines_from [] (d # cs)
      else split_lines_from (cur @ [c]) (d # cs))"

definition split_lines :: "string \<Rightarrow> string list" where
  "split_lines content = split_lines_from [] content"

text \<open>
  \<open>parseLine\<close> inside \<open>parseCSVWithRegex\<close>: a loop of \<open>pattern.exec(line)\<close> for the
  global pattern \<open>/(?:^|,)(?:Q([^Q]*)Q|([^Q,]*))/g\<close>, where \<open>Q\<close> stands for the double
  quote character.

  \<open>field_at line q\<close> is the second group of the pattern matched at index \<open>q\<close>: a
  quote, characters other than a quote, and a closing quote when there is one; otherwise
  the longest run of characters that are neither a quote nor a comma (it may be empty).
  It returns the captured text and the index where the match ends.

  \<open>pattern_exec line lastIndex\<close> is one call of \<open>exec\<close>: the match is looked for at
  \<open>lastIndex\<close> and then at each later index. At index 0 the alternative \<open>^\<close> matches;
  at a later index only a comma starts a match. The result is the captured text and the
  new \<open>lastIndex\<close>, or \<open>None\<close> for \<open>null\<close>.

  \<open>exec\<close> does not advance \<open>lastIndex\<close> after an empty match, so the \<open>while\<close> loop
  need not end: the loop is a partial function, \<open>None\<close> when it runs forever.
\<close>

definition field_at :: "string \<Rightarrow> nat \<Rightarrow> string \<times> nat" where
  "field_at line q =
     (case drop q line of
        [] \<Rightarrow> ([], q)
      | c # after \<Rightarrow>
          (let body = takeWhile (\<lambda>x. x \<noteq> quote) after
           in if c = quote \<and> length body < length after
              then (body, q + length body + 2)
              else (let v = takeWhile (\<lambda>x. x \<noteq> quote \<and> x \<noteq> CHR '','') (c # after)
                    in (v, q + length v))))"

definition pattern_exec :: "string \<Rightarrow> nat \<Rightarrow> (string \<times> nat) option" where
  "pattern_exec line lastIndex =
     (if lastIndex = 0 then Some (field_at line 0)
      else (let p = lastIndex + length (takeWhile (\<lambda>x. x \<noteq> CHR '','') (drop lastIndex line))
            in if p < length line then Some (field_at line (p + 1)) else None))"

partial_function (option) parseLine_loop :: "string \<Rightarrow> nat \<Rightarrow> string list \<Rightarrow> string list option" where
  "parseLine_loop line lastIndex values =
     (case pattern_exec line lastIndex of
        None \<Rightarrow> Some values
      | Some (v, e) \<Rightarrow> parseLine_loop line e (values @ [v]))"

declare parseLine_loop.simps [code]

definition parseLine :: "string \<Rightarrow> string list option" where
  "parseLine line = parseLine_loop line 0 []"


text \<open>
  \<open>header.toLowerCase().replace(/[^a-z0-9]/g, '_')\<close> on ASCII text, and
  \<open>String.prototype.includes\<close>.
\<close>

definition toLowerCase_char :: "char \<Rightarrow> char" where
  "toLowerCase_char c =
     (if 65 \<le> (of_char c :: nat) \<and> (of_char c :: nat) \<le> 90 then char_of (of_char c + 32 :: nat) else c)"

definition isKeyChar :: "char \<Rightarrow> bool" where
  "isKeyChar c = ((97 \<le> (of_char c :: nat) \<and> (of_char c :: nat) \<le> 122)
                 \<or> (48 \<le> (of_char c :: nat) \<and> (of_char c :: nat) \<le> 57))"

definition normalize_key :: "string \<Rightarrow> string" where
  "normalize_key header =
     map (\<lambda>c. if isKeyChar c then c else CHR ''_'') (map toLowerCase_char header)"

fun str_includes :: "string \<Rightarrow> string \<Rightarrow> bool" where
  "str_includes [] pat = (pat = [])"
| "str_includes (c # cs) pat = (take (length pat) (c # cs) = pat \<or> str_includes cs pat)"

text \<open>
  \<open>parseFloat\<close>: leading white space is skipped, then the longest prefix that is a
  decimal literal (sign, digits, fraction, exponent, or \<open>Infinity\<close>) is read; with no
  such prefix the result is \<open>NaN\<close>.
\<close>

definition isDigit :: "char \<Rightarrow> bool" where
  "isDigit c = (48 \<le> (of_char c :: nat) \<and> (of_char c :: nat) \<le> 57)"

definition digits_value :: "string \<Rightarrow> nat" where
  "digits_value ds = foldl (\<lambda>acc c. acc * 10 + (of_char c - 48)) 0 ds"

definition exponent_part :: "string \<Rightarrow> int" where
  "exponent_part s =
     (case s of
        [] \<Rightarrow> 0
      | c # r \<Rightarrow>
          if c = CHR ''e'' \<or> c = CHR ''E'' then
            (let signed = (case r of [] \<Rightarrow> False | d # _ \<Rightarrow> d = CHR ''-'' \<or> d = CHR ''+'');
                 negative = (case r of [] \<Rightarrow> False | d # _ \<Rightarrow> d = CHR ''-'');
                 ds = takeWhile isDigit (if signed then drop 1 r else r)
             in if ds = [] then 0
                else if negative then - int (digits_value ds) else int (digits_value ds))
          else 0)"

definition parseFloat :: "string \<Rightarrow> number" where
  "parseFloat input =
     (let s = dropWhile isWhiteSpace input;
          signed = (case s of [] \<Rightarrow> False | d # _ \<Rightarrow> d = CHR ''-'' \<or> d = CHR ''+'');
          negative = (case s of [] \<Rightarrow> False | d # _ \<Rightarrow> d = CHR ''-'');
          s1 = (if signed then drop 1 s else s)
      in if take 8 s1 = ''Infinity'' then (if negative then NegInfinity else PosInfinity)
         else
           (let ip = takeWhile isDigit s1;
                r1 = dropWhile isDigit s1;
                dotted = (case r1 of [] \<Rightarrow> False | d # _ \<Rightarrow> d = CHR ''.'');
                fp = (if dotted then takeWhile isDigit (drop 1 r1) else []);
                r2 = (if dotted then dropWhile isDigit (drop 1 r1) else r1)
            in if ip = [] \<and> fp = [] then NaN
               else
                 (let ex = exponent_part r2;
                      m = (of_nat (digits_value (ip @ fp)) :: rat) / 10 ^ length fp;
                      v = (if 0 \<le> ex then m * 10 ^ nat ex else m / 10 ^ nat (- ex))
                  in Finite (if negative then - v else v))))"

definition isNaN :: "number \<Rightarrow> bool" where
  "isNaN n = (n = NaN)"

text \<open>
  The rows of \<open>parseCSVWithRegex\<close>: for each header, \<open>values[index] || ''\<close>, turned
  into a number when the key contains \<open>amount\<close>, \<open>price\<close> or \<open>value\<close> and
  \<open>parseFloat\<close> of the text without \<open>$\<close> and commas is not \<open>NaN\<close>. A thrown
  \<open>Error\<close> is the left summand.
\<close>

datatype pipeline_error = Error string

definition cell_for :: "string \<Rightarrow> string \<Rightarrow> cell" where
  "cell_for key v =
     (if str_includes key ''amount'' \<or> str_includes key ''price'' \<or> str_includes key ''value''
      then (let num = parseFloat (filter (\<lambda>c. c \<noteq> CHR ''$'' \<and> c \<noteq> CHR '','') v)
            in if \<not> isNaN num then Num num else Str v)
      else Str v)"

definition build_row :: "string list \<Rightarrow> string list \<Rightarrow> row" where
  "build_row headers values =
     foldl (\<lambda>row (index, header).
              (let key = normalize_key header;
                   v = (if index < length values then values ! index else [])
               in row_set row key (cell_for key v)))
       [] (enumerate 0 headers)"

fun rows_loop :: "string list \<Rightarrow> string list \<Rightarrow> row list \<Rightarrow> row list option" where
  "rows_loop headers [] rows = Some rows"
| "rows_loop headers (line # rest) rows =
     (case parseLine line of
        None \<Rightarrow> None
      | Some values \<Rightarrow>
          rows_loop headers rest
            (if list_ex (\<lambda>v. trim v \<noteq> []) values then rows @ [build_row headers values]
             else rows))"

definition parseCSVWithRegex :: "string \<Rightarrow> (pipeline_error + string list \<times> row list) option" where
  "parseCSVWithRegex content =
     (case filter (\<lambda>line. trim line \<noteq> []) (split_lines content) of
        [] \<Rightarrow> Some (Inl (Error ''CSV file is empty''))
      | first # rest \<Rightarrow>
          (case parseLine first of
             None \<Rightarrow> None
           | Some hs \<Rightarrow>
               (let headers = map trim hs
                in case rows_loop headers rest [] of
                     None \<Rightarrow> None
                   | Some rows \<Rightarrow> Some (Inr (headers, rows)))))"

text \<open>
  \<open>CSV_ROW_SCHEMA.parse\<close>, the zod object schema: \<open>region\<close> and \<open>country\<close> are
  strings of length at least 1, \<open>amount\<close> is a finite number, \<open>id\<close>, \<open>date\<close> and
  \<open>category\<close> are strings when present. \<open>None\<close> is the thrown validation error.
\<close>

record CsvRow =
  row_region :: string
  row_country :: string
  row_amount :: rat
  row_id :: "string option"
  row_date :: "string option"
  row_category :: "string option"

definition required_string :: "cell option \<Rightarrow> string option" where
  "required_string c = (case c of Some (Str s) \<Rightarrow> if 1 \<le> length s then Some s else None | _ \<Rightarrow> None)"

definition finite_number :: "cell option \<Rightarrow> rat option" where
  "finite_number c = (case c of Some (Num (Finite q)) \<Rightarrow> Some q | _ \<Rightarrow> None)"

definition optional_string :: "cell option \<Rightarrow> string option option" where
  "optional_string c = (case c of None \<Rightarrow> Some None | Some (Str s) \<Rightarrow> Some (Some s) | Some (Num _) \<Rightarrow> None)"

definition CSV_ROW_SCHEMA_parse :: "row \<Rightarrow> CsvRow option" where
  "CSV_ROW_SCHEMA_parse row =
     (case (required_string (map_of row ''region''), required_string (map_of row ''country''),
            finite_number (map_of row ''amount''), optional_string (map_of row ''id''),
            optional_string (map_of row ''date''), optional_string (map_of row ''category'')) of
        (Some r, Some c, Some a, Some i, Some d, Some g) \<Rightarrow>
          Some \<lparr>row_region = r, row_country = c, row_amount = a, row_id = i, row_date = d,
                row_category = g\<rparr>
      | _ \<Rightarrow> None)"

fun validate_rows :: "row list \<Rightarrow> CsvRow list \<Rightarrow> nat \<Rightarrow> CsvRow list \<times> nat" where
  "validate_rows [] validatedRows errorCount = (validatedRows, errorCount)"
| "validate_rows (row # rest) validatedRows errorCount =
     (case CSV_ROW_SCHEMA_parse row of
        Some validated \<Rightarrow> validate_rows rest (validatedRows @ [validated]) errorCount
      | None \<Rightarrow> validate_rows rest validatedRows (errorCount + 1))"

text \<open>
  \<open>aggregateRegionData\<close>. The \<open>Map\<close> is the list of its entries in insertion order,
  keyed by the region, a colon and the country. \<open>Math.round(x)\<close> is \<open>\<lfloor>x + 1/2\<rfloor>\<close>.
  \<open>String.prototype.localeCompare\<close> depends on the platform's collation and is a
  parameter; the sort is stable.
\<close>

record RegionSummary =
  region :: string
  country :: string
  count :: nat
  amountSum :: rat
  amountAvg :: rat

record Group =
  g_region :: string
  g_country :: string
  g_count :: nat
  g_amountSum :: rat

definition group_key :: "CsvRow \<Rightarrow> string" where
  "group_key row = row_region row @ '':'' @ row_country row"

fun aggregation_add :: "(string \<times> Group) list \<Rightarrow> CsvRow \<Rightarrow> (string \<times> Group) list" where
  "aggregation_add [] row =
     [(group_key row,
       \<lparr>g_region = row_region row, g_country = row_country row, g_count = 1,
        g_amountSum = row_amount row\<rparr>)]"
| "aggregation_add ((k, existing) # rest) row =
     (if k = group_key row
      then (k, existing\<lparr>g_count := g_count existing + 1,
                         g_amountSum := g_amountSum existing + row_amount row\<rparr>) # rest
      else (k, existing) # aggregation_add rest row)"

definition Math_round :: "rat \<Rightarrow> int" where
  "Math_round x = \<lfloor>x + 1 / 2\<rfloor>"


definition summary_of :: "Group \<Rightarrow> RegionSummary" where
  "summary_of data =
     \<lparr>region = g_region data, country = g_country data, count = g_count data,
      amountSum = of_int (Math_round (g_amountSum data * 100)) / 100,
      amountAvg = of_int (Math_round ((g_amountSum data / of_nat (g_count data)) * 100)) / 100\<rparr>"

fun insert_sorted :: "(string \<Rightarrow> string \<Rightarrow> int) \<Rightarrow> RegionSummary \<Rightarrow> RegionSummary list \<Rightarrow> RegionSummary list" where
  "insert_sorted localeCompare a [] = [a]"
| "insert_sorted localeCompare a (b # bs) =
     (if localeCompare (region a) (region b) \<le> 0 then a # b # bs
      else b # insert_sorted localeCompare a bs)"

definition sort_by_region :: "(string \<Rightarrow> string \<Rightarrow> int) \<Rightarrow> RegionSummary list \<Rightarrow> RegionSummary list" where
  "sort_by_region localeCompare summaries = foldr (insert_sorted localeCompare) summaries []"

definition aggregateRegionData :: "(string \<Rightarrow> string \<Rightarrow> int) \<Rightarrow> CsvRow list \<Rightarrow> RegionSummary list" where
  "aggregateRegionData localeCompare rows =
     sort_by_region localeCompare (map (\<lambda>(k, data). summary_of data) (foldl aggregation_add [] rows))"

text \<open>
  \<open>processCsvFile\<close> and \<open>processExcelFile\<close>. \<open>clock n\<close> is the n-th reading of
  \<open>Date.now()\<close> during the call, counted from 0. The validation and aggregation steps
  that both functions share are \<open>finish\<close>. The xlsx library is outside the repository:
  \<open>xlsx\<close> stands for reading the workbook and converting its first sheet to records,
  which either throws or gives the records (with the option \<open>raw: false\<close> of the
  source, their cells as formatted text).
\<close>

record ProcessingStats =
  parseDurationMs :: int
  validateDurationMs :: int
  aggregateDurationMs :: int
  totalDurationMs :: int

record ParseResult =
  rowCount :: nat
  successCount :: nat
  errorCount :: nat
  summaries :: "RegionSummary list"
  stats :: ProcessingStats

definition finish :: "(string \<Rightarrow> string \<Rightarrow> int) \<Rightarrow> (nat \<Rightarrow> int) \<Rightarrow> row list \<Rightarrow> ParseResult" where
  "finish localeCompare clock rows =
     (case validate_rows rows [] 0 of
        (validatedRows, errors) \<Rightarrow>
          \<lparr>rowCount = length rows, successCount = length validatedRows, errorCount = errors,
           summaries = aggregateRegionData localeCompare validatedRows,
           stats = \<lparr>parseDurationMs = clock 2 - clock 1, validateDurationMs = clock 4 - clock 3,
                    aggregateDurationMs = clock 6 - clock 5, totalDurationMs = clock 7 - clock 0\<rparr>\<rparr>)"

definition processCsvFile ::
  "(string \<Rightarrow> string \<Rightarrow> int) \<Rightarrow> (nat \<Rightarrow> int) \<Rightarrow> string \<Rightarrow> (pipeline_error + ParseResult) option" where
  "processCsvFile localeCompare clock buffer =
     (case parseCSVWithRegex buffer of
        None \<Rightarrow> None
      | Some (Inl (Error message)) \<Rightarrow> Some (Inl (Error (''Failed to parse CSV: '' @ message)))
      | Some (Inr (headers, rows)) \<Rightarrow> Some (Inr (finish localeCompare clock rows)))"

text \<open>A comparison by character codes, to evaluate the pipeline with.\<close>

fun compare_codes :: "string \<Rightarrow> string \<Rightarrow> int" where
  "compare_codes [] [] = 0"
| "compare_codes [] (b # bs) = - 1"
| "compare_codes (a # as) [] = 1"
| "compare_codes (a # as) (b # bs) =
     (if (of_char a :: nat) < of_char b then - 1
      else if (of_char b :: nat) < of_char a then 1 else compare_codes as bs)"

definition lines_of :: "string list \<Rightarrow> string" where
  "lines_of ls = concat (map (\<lambda>l. l @ [LF]) ls)"


definition normalize_row :: "(string \<times> cell) list \<Rightarrow> row" where
  "normalize_row entries =
     foldl (\<lambda>normalized (key, v). row_set normalized (normalize_key key) v) [] entries"

definition processExcelFile ::
  "(string \<Rightarrow> pipeline_error + (string \<times> cell) list list) \<Rightarrow> (string \<Rightarrow> string \<Rightarrow> int)
     \<Rightarrow> (nat \<Rightarrow> int) \<Rightarrow> string \<Rightarrow> pipeline_error + ParseResult" where
  "processExcelFile xlsx localeCompare clock buffer =
     (case xlsx buffer of
        Inl (Error message) \<Rightarrow> Inl (Error (''Failed to parse Excel file: '' @ message))
      | Inr rawData \<Rightarrow> Inr (finish localeCompare clock (map normalize_row rawData)))"












text \<open>Inputs for evaluation.\<close>

definition frozen_clock :: "nat \<Rightarrow> int" where
  "frozen_clock n = 0"




definition scenario_csv :: string where
  "scenario_csv = lines_of [''id,region,country,amount'', ''1,EU,DE,100'', ''2,EU,DE,50'', ''3,,FR,30'']"

definition scenario_result :: ParseResult where
  "scenario_result =
     \<lparr>rowCount = 3, successCount = 2, errorCount = 1,
      summaries = [\<lparr>region = ''EU'', country = ''DE'', count = 2, amountSum = 150, amountAvg = 75\<rparr>],
      stats = \<lparr>parseDurationMs = 0, validateDurationMs = 0, aggregateDurationMs = 0,
               totalDurationMs = 0\<rparr>\<rparr>"



definition sample_sheet :: "string \<Rightarrow> pipeline_error + (string \<times> cell) list list" where
  "sample_sheet buffer =
     Inr [[(''Region'', Str ''EU''), (''Country'', Str ''DE''), (''Amount'', Str ''100'')],
          [(''Region'', Str []), (''Country'', Str ''FR''), (''Amount'', Str ''50'')]]"

definition sample_sheet_result :: ParseResult where
  "sample_sheet_result =
     \<lparr>rowCount = 2, successCount = 0, errorCount = 2, summaries = [],
      stats = \<lparr>parseDurationMs = 0, validateDurationMs = 0, aggregateDurationMs = 0,
               totalDurationMs = 0\<rparr>\<rparr>"


section \<open>Sliding-window rate limiter (hono-csv-service/src/middleware/rate-limit.ts)\<close>

text \<open>
  \<open>RateLimitConfig\<close> with the two fields the limiter reads, and the object a check
  returns. Timestamps are millisecond clock readings, integers. The private map
  \<open>requests\<close> of \<open>InMemoryRateLimiter\<close> is a partial map from keys to timestamp
  lists; every \<open>Date.now()\<close> is the argument \<open>now\<close>.
\<close>

record RateLimitConfig =
  windowMs :: int
  maxRequests :: int

record LimitResult =
  allowed :: bool
  remaining :: int
  resetTime :: int

type_synonym requests_map = "string \<rightharpoonup> int list"

definition checkLimit ::
  "RateLimitConfig \<Rightarrow> requests_map \<Rightarrow> string \<Rightarrow> int \<Rightarrow> LimitResult \<times> requests_map" where
  "checkLimit config requests key now =
     (let windowStart = now - windowMs config;
          timestamps0 = (case requests key of Some ts \<Rightarrow> ts | None \<Rightarrow> []);
          timestamps1 = filter (\<lambda>ts. ts > windowStart) timestamps0;
          allowed' = (int (length timestamps1) < maxRequests config);
          remaining' = max 0 (maxRequests config - int (length timestamps1));
          timestamps2 = (if allowed' then timestamps1 @ [now] else timestamps1);
          requests' = requests(key \<mapsto> timestamps2);
          resetTime' = (if length timestamps2 > 0 then hd timestamps2 + windowMs config
                        else now + windowMs config)
      in (\<lparr>allowed = allowed', remaining = remaining', resetTime = resetTime'\<rparr>, requests'))"

definition reset_key :: "requests_map \<Rightarrow> string \<Rightarrow> requests_map" where
  "reset_key requests key = requests(key := None)"

definition cleanup :: "RateLimitConfig \<Rightarrow> requests_map \<Rightarrow> int \<Rightarrow> requests_map" where
  "cleanup config requests now =
     (let windowStart = now - windowMs config
      in (\<lambda>key. case requests key of
                  None \<Rightarrow> None
                | Some timestamps \<Rightarrow>
                    (let validTimestamps = filter (\<lambda>ts. ts > windowStart) timestamps
                     in if length validTimestamps = 0 then None else Some validTimestamps)))"

text \<open>
  Everything that can happen to the map of one \<open>InMemoryRateLimiter\<close>: a check, an
  explicit reset, a periodic sweep. A limiter starts with the empty map and is only
  changed by these calls, at whatever clock readings they come with.
\<close>

datatype limiter_call = CheckLimit string int | Reset string | Cleanup int

fun limiter_step :: "RateLimitConfig \<Rightarrow> requests_map \<Rightarrow> limiter_call \<Rightarrow> requests_map" where
  "limiter_step config requests (CheckLimit key now) = snd (checkLimit config requests key now)"
| "limiter_step config requests (Reset key) = reset_key requests key"
| "limiter_step config requests (Cleanup now) = cleanup config requests now"

definition limiter_run :: "RateLimitConfig \<Rightarrow> limiter_call list \<Rightarrow> requests_map" where
  "limiter_run config calls = foldl (limiter_step config) Map.empty calls"

text \<open>A burst: consecutive checks of one key at the given clock readings.\<close>

fun check_all ::
  "RateLimitConfig \<Rightarrow> requests_map \<Rightarrow> string \<Rightarrow> int list \<Rightarrow> LimitResult list \<times> requests_map" where
  "check_all config requests key [] = ([], requests)"
| "check_all config requests key (now # later) =
     (case checkLimit config requests key now of
        (r, requests1) \<Rightarrow>
          (case check_all config requests1 key later of
             (rs, requests2) \<Rightarrow> (r # rs, requests2)))"

text \<open>
  The timestamps stored for a key (none when the key is absent), and those of them still
  inside the window at \<open>now\<close>: the list \<open>checkLimit\<close> keeps after its filter.
\<close>

definition stored :: "requests_map \<Rightarrow> string \<Rightarrow> int list" where
  "stored requests key = (case requests key of Some ts \<Rightarrow> ts | None \<Rightarrow> [])"

definition pruned :: "RateLimitConfig \<Rightarrow> requests_map \<Rightarrow> string \<Rightarrow> int \<Rightarrow> int list" where
  "pruned config requests key now = filter (\<lambda>ts. ts > now - windowMs config) (stored requests key)"

definition within_quota :: "RateLimitConfig \<Rightarrow> requests_map \<Rightarrow> bool" where
  "within_quota config requests = (\<forall>key. int (length (stored requests key)) \<le> maxRequests config)"

definition config_5_per_second :: RateLimitConfig where
  "config_5_per_second = \<lparr>windowMs = 1000, maxRequests = 5\<rparr>"

definition config_2_per_second :: RateLimitConfig where
  "config_2_per_second = \<lparr>windowMs = 1000, maxRequests = 2\<rparr>"

subsection \<open>The Redis-backed limiter\<close>













section \<open>Circuit breaker (hono-csv-service/src/rpc/grpc-client.ts)\<close>

text \<open>
  The enum \<open>CircuitBreakerState\<close> of types.ts and the class \<open>CircuitBreaker\<close>.
  JavaScript numbers that hold counters and millisecond clock readings are integers.
  Every \<open>Date.now()\<close> of the source is an explicit argument: \<open>t0\<close> is the reading in
  the recovery test of \<open>execute\<close>, \<open>t1\<close> and \<open>t2\<close> are the two readings of
  \<open>onFailure\<close> (for \<open>lastFailureTime\<close> and for \<open>nextAttemptTime\<close>). Calls run one
  after another: a call ends before the next one starts.
\<close>

datatype CircuitBreakerState = Closed | Open | HalfOpen

record CircuitBreakerOptions =
  failureThreshold :: int
  recoveryTimeout :: int
  monitoringPeriod :: int

record CircuitBreaker =
  state :: CircuitBreakerState
  failureCount :: int
  successCount :: int
  lastFailureTime :: int
  nextAttemptTime :: int
  options :: CircuitBreakerOptions

text \<open>The constructor: the field initialisers of the class.\<close>

definition new_CircuitBreaker :: "CircuitBreakerOptions \<Rightarrow> CircuitBreaker" where
  "new_CircuitBreaker opts =
     \<lparr>state = Closed, failureCount = 0, successCount = 0, lastFailureTime = 0,
      nextAttemptTime = 0, options = opts\<rparr>"

text \<open>
  What \<open>execute\<close> throws: its own \<open>Error('Circuit breaker is OPEN')\<close>, or the error
  of \<open>fn\<close>, rethrown unchanged.
\<close>

datatype 'e execute_error = CircuitOpenError | FnError 'e

definition onSuccess :: "CircuitBreaker \<Rightarrow> CircuitBreaker" where
  "onSuccess cb =
     (let cb1 = cb\<lparr>failureCount := 0, successCount := successCount cb + 1\<rparr>
      in if state cb1 = HalfOpen
         then (if successCount cb1 \<ge> 3 then cb1\<lparr>state := Closed\<rparr> else cb1)
         else cb1)"

definition onFailure :: "CircuitBreaker \<Rightarrow> int \<Rightarrow> int \<Rightarrow> CircuitBreaker" where
  "onFailure cb t1 t2 =
     (let cb1 = cb\<lparr>failureCount := failureCount cb + 1, lastFailureTime := t1\<rparr>
      in if failureCount cb1 \<ge> failureThreshold (options cb1)
         then cb1\<lparr>state := Open, nextAttemptTime := t2 + recoveryTimeout (options cb1)\<rparr>
         else cb1)"

text \<open>
  \<open>fn\<close> is any operation on the outside world \<open>'w\<close>: it returns its result or its
  error, and the world after the call. \<open>execute\<close> returns what the caller receives, the
  breaker after the call and the world after the call.
\<close>

definition execute ::
  "CircuitBreaker \<Rightarrow> ('w \<Rightarrow> ('e + 'a) \<times> 'w) \<Rightarrow> int \<Rightarrow> int \<Rightarrow> int \<Rightarrow> 'w
     \<Rightarrow> ('e execute_error + 'a) \<times> CircuitBreaker \<times> 'w" where
  "execute cb fn t0 t1 t2 w =
     (let cb1 = (if state cb = Open \<and> t0 \<ge> nextAttemptTime cb
                 then cb\<lparr>state := HalfOpen, successCount := 0\<rparr> else cb)
      in if state cb1 = Open then (Inl CircuitOpenError, cb1, w)
         else (case fn w of
                 (Inr result, w') \<Rightarrow> (Inr result, onSuccess cb1, w')
               | (Inl error, w') \<Rightarrow> (Inl (FnError error), onFailure cb1 t1 t2, w')))"

definition reset_breaker :: "CircuitBreaker \<Rightarrow> CircuitBreaker" where
  "reset_breaker cb = cb\<lparr>state := Closed, failureCount := 0, successCount := 0\<rparr>"

text \<open>
  A call counter on \<open>fn\<close>: the world is paired with the number of times \<open>fn\<close> has
  been invoked.
\<close>

definition counted :: "('w \<Rightarrow> 'r \<times> 'w) \<Rightarrow> nat \<times> 'w \<Rightarrow> 'r \<times> (nat \<times> 'w)" where
  "counted fn = (\<lambda>(n, w). case fn w of (r, w') \<Rightarrow> (r, (Suc n, w')))"

text \<open>The breaker after one call of \<open>execute\<close>.\<close>

definition breaker_after ::
  "CircuitBreaker \<Rightarrow> ('w \<Rightarrow> ('e + 'a) \<times> 'w) \<Rightarrow> int \<Rightarrow> int \<Rightarrow> int \<Rightarrow> 'w \<Rightarrow> CircuitBreaker" where
  "breaker_after cb fn t0 t1 t2 w = fst (snd (execute cb fn t0 t1 t2 w))"

text \<open>
  The life of one breaker: calls of \<open>execute\<close>, each with its operation and its three
  clock readings, and calls of \<open>reset\<close>.
\<close>

datatype ('w, 'e, 'a) breaker_call = Execute "'w \<Rightarrow> ('e + 'a) \<times> 'w" int int int | ResetCall

fun breaker_run ::
  "CircuitBreaker \<Rightarrow> ('w, 'e, 'a) breaker_call list \<Rightarrow> 'w \<Rightarrow> CircuitBreaker \<times> 'w" where
  "breaker_run cb [] w = (cb, w)"
| "breaker_run cb (Execute fn t0 t1 t2 # rest) w =
     (case execute cb fn t0 t1 t2 w of (r, cb', w') \<Rightarrow> breaker_run cb' rest w')"
| "breaker_run cb (ResetCall # rest) w = breaker_run (reset_breaker cb) rest w"


text \<open>Two concrete operations for evaluation: one that fails, one that succeeds.\<close>

definition failing_fn :: "unit \<Rightarrow> (string + int) \<times> unit" where
  "failing_fn w = (Inl ''UNAVAILABLE'', w)"

definition ok_fn :: "unit \<Rightarrow> (string + int) \<times> unit" where
  "ok_fn w = (Inr 1, w)"

text \<open>The options \<open>GrpcClientPool.createConnection\<close> gives every breaker it creates.\<close>

definition pool_options :: CircuitBreakerOptions where
  "pool_options = \<lparr>failureThreshold = 5, recoveryTimeout = 30000, monitoringPeriod = 60000\<rparr>"

definition four_failures :: "(unit, string, int) breaker_call list" where
  "four_failures =
     [Execute failing_fn 1 1 1, Execute failing_fn 2 2 2, Execute failing_fn 3 3 3,
      Execute failing_fn 4 4 4]"

definition five_failures :: "(unit, string, int) breaker_call list" where
  "five_failures =
     [Execute failing_fn 996 996 996, Execute failing_fn 997 997 997, Execute failing_fn 998 998 998,
      Execute failing_fn 999 999 999, Execute failing_fn 1000 1000 1000]"

chapter \<open>Theorems\<close>

section \<open>Circuit breaker\<close>


lemma breaker_after_failure:
  assumes "state cb = Closed \<or> state cb = HalfOpen \<or> (state cb = Open \<and> nextAttemptTime cb \<le> t0)"
    and "fn w = (Inl e, w')"
  shows "breaker_after cb fn t0 t1 t2 w
           = onFailure (if state cb = Open then cb\<lparr>state := HalfOpen, successCount := 0\<rparr> else cb) t1 t2"
  using assms by (auto simp: breaker_after_def execute_def)

lemma breaker_after_success:
  assumes "state cb = Closed \<or> state cb = HalfOpen \<or> (state cb = Open \<and> nextAttemptTime cb \<le> t0)"
    and "fn w = (Inr r, w')"
  shows "breaker_after cb fn t0 t1 t2 w
           = onSuccess (if state cb = Open then cb\<lparr>state := HalfOpen, successCount := 0\<rparr> else cb)"
  using assms by (auto simp: breaker_after_def execute_def)








text \<open>
  C1. While the breaker is Open and the clock reads less than \<open>nextAttemptTime\<close>,
  \<open>execute\<close> fails with the breaker's own open-circuit error, leaves the breaker as it
  was, and never invokes \<open>fn\<close>: the call counter on \<open>fn\<close> and the world are unchanged.
\<close>

theorem execute_open_fails_fast:
  assumes "state cb = Open" and "t0 < nextAttemptTime cb"
  shows "execute cb (counted fn) t0 t1 t2 (n, w) = (Inl CircuitOpenError, cb, (n, w))"
  using assms by (simp add: execute_def)

theorem execute_open_fails_fast_witness:
  "state (fst (breaker_run (new_CircuitBreaker pool_options) five_failures ())) = Open
   \<and> 2000 < nextAttemptTime (fst (breaker_run (new_CircuitBreaker pool_options) five_failures ()))
   \<and> execute (fst (breaker_run (new_CircuitBreaker pool_options) five_failures ()))
        (counted ok_fn) 2000 2000 2000 (7, ())
      = (Inl CircuitOpenError, fst (breaker_run (new_CircuitBreaker pool_options) five_failures ()),
         (7, ()))"
proof -
  have s: "state (fst (breaker_run (new_CircuitBreaker pool_options) five_failures ())) = Open"
    by code_simp
  have t: "2000 < nextAttemptTime (fst (breaker_run (new_CircuitBreaker pool_options) five_failures ()))"
    by code_simp
  from execute_open_fails_fast [OF s t] s t show ?thesis by simp
qed

text \<open>
  C5, as amended. For a Closed breaker: a call whose \<open>fn\<close> fails adds one to the failure
  count, and the breaker is Open after the call exactly when that count has reached
  \<open>failureThreshold\<close>, with \<open>nextAttemptTime\<close> the clock reading plus
  \<open>recoveryTimeout\<close>; otherwise it stays Closed and \<open>nextAttemptTime\<close> is unchanged.
  A call whose \<open>fn\<close> succeeds leaves the breaker Closed and resets the failure count to
  0: the count is of consecutive failures.
\<close>

theorem closed_opens_at_threshold:
  assumes "state cb = Closed"
  shows "(fn w = (Inl e, w') \<longrightarrow>
            failureCount (breaker_after cb fn t0 t1 t2 w) = failureCount cb + 1
            \<and> (if failureThreshold (options cb) \<le> failureCount cb + 1
               then state (breaker_after cb fn t0 t1 t2 w) = Open
                  \<and> nextAttemptTime (breaker_after cb fn t0 t1 t2 w) = t2 + recoveryTimeout (options cb)
               else state (breaker_after cb fn t0 t1 t2 w) = Closed
                  \<and> nextAttemptTime (breaker_after cb fn t0 t1 t2 w) = nextAttemptTime cb))
       \<and> (fn w = (Inr r, w') \<longrightarrow>
            state (breaker_after cb fn t0 t1 t2 w) = Closed
            \<and> failureCount (breaker_after cb fn t0 t1 t2 w) = 0)"
proof (intro conjI impI)
  assume f: "fn w = (Inl e, w')"
  have b: "breaker_after cb fn t0 t1 t2 w = onFailure cb t1 t2"
    using breaker_after_failure [of cb t0 fn w e w' t1 t2] assms f by simp
  show "failureCount (breaker_after cb fn t0 t1 t2 w) = failureCount cb + 1"
    unfolding b by (simp add: onFailure_def Let_def)
  show "if failureThreshold (options cb) \<le> failureCount cb + 1
        then state (breaker_after cb fn t0 t1 t2 w) = Open
           \<and> nextAttemptTime (breaker_after cb fn t0 t1 t2 w) = t2 + recoveryTimeout (options cb)
        else state (breaker_after cb fn t0 t1 t2 w) = Closed
           \<and> nextAttemptTime (breaker_after cb fn t0 t1 t2 w) = nextAttemptTime cb"
    unfolding b using assms by (simp add: onFailure_def Let_def)
next
  assume f: "fn w = (Inr r, w')"
  have b: "breaker_after cb fn t0 t1 t2 w = onSuccess cb"
    using breaker_after_success [of cb t0 fn w r w'] assms f by simp
  show "state (breaker_after cb fn t0 t1 t2 w) = Closed"
    unfolding b using assms by (simp add: onSuccess_def Let_def)
  show "failureCount (breaker_after cb fn t0 t1 t2 w) = 0"
    unfolding b by (simp add: onSuccess_def Let_def)
qed

theorem closed_opens_at_threshold_witness:
  "state (fst (breaker_run (new_CircuitBreaker pool_options) four_failures ())) = Closed
   \<and> failureCount (fst (breaker_run (new_CircuitBreaker pool_options) four_failures ())) = 4
   \<and> state (breaker_after (fst (breaker_run (new_CircuitBreaker pool_options) four_failures ()))
              failing_fn 5 6 7 ()) = Open
   \<and> nextAttemptTime (breaker_after (fst (breaker_run (new_CircuitBreaker pool_options) four_failures ()))
              failing_fn 5 6 7 ()) = 30007
   \<and> state (breaker_after (fst (breaker_run (new_CircuitBreaker pool_options) four_failures ()))
              ok_fn 5 6 7 ()) = Closed
   \<and> failureCount (breaker_after (fst (breaker_run (new_CircuitBreaker pool_options) four_failures ()))
              ok_fn 5 6 7 ()) = 0"
proof -
  let ?cb = "fst (breaker_run (new_CircuitBreaker pool_options) four_failures ())"
  have s: "state ?cb = Closed" by code_simp
  have c: "failureCount ?cb = 4" by code_simp
  have th: "failureThreshold (options ?cb) = 5" by code_simp
  have rt: "recoveryTimeout (options ?cb) = 30000" by code_simp
  have f: "failing_fn () = (Inl ''UNAVAILABLE'', ())" by (simp add: failing_fn_def)
  have g: "ok_fn () = (Inr 1, ())" by (simp add: ok_fn_def)
  from closed_opens_at_threshold [of ?cb failing_fn "()" "''UNAVAILABLE''" "()" 5 6 7, OF s] f
  have 1: "state (breaker_after ?cb failing_fn 5 6 7 ()) = Open
         \<and> nextAttemptTime (breaker_after ?cb failing_fn 5 6 7 ()) = 30007"
    by (simp add: c th rt)
  from closed_opens_at_threshold [of ?cb ok_fn "()" _ "()" 5 6 7 1, OF s] g
  have 2: "state (breaker_after ?cb ok_fn 5 6 7 ()) = Closed
         \<and> failureCount (breaker_after ?cb ok_fn 5 6 7 ()) = 0"
    by simp
  from s c 1 2 show ?thesis by simp
qed

text \<open>
  The claim C5 as it is written has the failure count survive a success while Closed.
  With the pool's threshold of 5: after four failures and one success the count is 0,
  and the failure that follows, the fifth while Closed, leaves the breaker Closed with a
  count of 1.
\<close>

theorem failure_count_survives_success_counterexample:
  "failureCount (fst (breaker_run (new_CircuitBreaker pool_options) four_failures ())) = 4
   \<and> state (fst (breaker_run (new_CircuitBreaker pool_options)
                (four_failures @ [Execute ok_fn 5 5 5]) ())) = Closed
   \<and> failureCount (fst (breaker_run (new_CircuitBreaker pool_options)
                (four_failures @ [Execute ok_fn 5 5 5]) ())) = 0
   \<and> state (fst (breaker_run (new_CircuitBreaker pool_options)
                (four_failures @ [Execute ok_fn 5 5 5, Execute failing_fn 6 6 6]) ())) = Closed
   \<and> failureCount (fst (breaker_run (new_CircuitBreaker pool_options)
                (four_failures @ [Execute ok_fn 5 5 5, Execute failing_fn 6 6 6]) ())) = 1"
  by code_simp




section \<open>Rate limiter\<close>

lemma checkLimit_allowed:
  "allowed (fst (checkLimit config requests key now))
     = (int (length (pruned config requests key now)) < maxRequests config)"
  by (simp add: checkLimit_def pruned_def stored_def Let_def)

lemma checkLimit_stored:
  "stored (snd (checkLimit config requests key now)) key
     = (if int (length (pruned config requests key now)) < maxRequests config
        then pruned config requests key now @ [now] else pruned config requests key now)"
  by (simp add: checkLimit_def pruned_def stored_def Let_def)

lemma checkLimit_remaining:
  "remaining (fst (checkLimit config requests key now))
     = max 0 (maxRequests config - int (length (pruned config requests key now)))"
  by (simp add: checkLimit_def pruned_def stored_def Let_def)

lemma checkLimit_other:
  "k \<noteq> key \<Longrightarrow> snd (checkLimit config requests key now) k = requests k"
  by (simp add: checkLimit_def Let_def)

lemma check_all_fst_snd:
  "check_all config requests key (now # later)
     = (fst (checkLimit config requests key now)
          # fst (check_all config (snd (checkLimit config requests key now)) key later),
        snd (check_all config (snd (checkLimit config requests key now)) key later))"
  by (simp split: prod.splits)

lemma pruned_all_valid:
  assumes "\<forall>ts \<in> set (stored requests key). now - windowMs config < ts"
  shows "pruned config requests key now = stored requests key"
  using assms by (simp add: pruned_def)

lemma pruned_all_expired:
  assumes "\<forall>ts \<in> set (stored requests key). ts \<le> now - windowMs config"
  shows "pruned config requests key now = []"
  using assms by (auto simp: pruned_def filter_empty_conv)

lemma burst_within_window:
  assumes "maxRequests config = int N"
    and "\<forall>t \<in> set burst. L - windowMs config < t \<and> t \<le> L"
    and "\<forall>ts \<in> set (stored requests key). L - windowMs config < ts"
    and "length (stored requests key) = k" and "k \<le> N"
  shows "map allowed (fst (check_all config requests key burst))
           = replicate (min (N - k) (length burst)) True
             @ replicate (length burst - (N - k)) False
       \<and> stored (snd (check_all config requests key burst)) key
           = stored requests key @ take (N - k) burst"
  using assms(2-)
proof (induction burst arbitrary: requests k)
  case Nil
  then show ?case by simp
next
  case (Cons t burst)
  let ?rq1 = "snd (checkLimit config requests key t)"
  have tL: "L - windowMs config < t" "t \<le> L" using Cons.prems(1) by simp_all
  have valid: "\<forall>ts \<in> set (stored requests key). t - windowMs config < ts"
    using Cons.prems(2) tL by fastforce
  have pr: "pruned config requests key t = stored requests key"
    by (rule pruned_all_valid [OF valid])
  have rest: "\<forall>t \<in> set burst. L - windowMs config < t \<and> t \<le> L"
    using Cons.prems(1) by simp
  show ?case
  proof (cases "k < N")
    case True
    have al: "allowed (fst (checkLimit config requests key t))"
      using True Cons.prems(3) by (simp add: checkLimit_allowed pr assms(1))
    have st: "stored ?rq1 key = stored requests key @ [t]"
      using True Cons.prems(3) by (simp add: checkLimit_stored pr assms(1))
    have v1: "\<forall>ts \<in> set (stored ?rq1 key). L - windowMs config < ts"
      using Cons.prems(2) tL by (simp add: st)
    have l1: "length (stored ?rq1 key) = Suc k" using Cons.prems(3) by (simp add: st)
    have k1: "Suc k \<le> N" using True by simp
    note IH = Cons.IH [OF rest v1 l1 k1]
    have nk: "N - k = Suc (N - Suc k)" using True by simp
    have m: "min (N - k) (length (t # burst)) = Suc (min (N - Suc k) (length burst))"
      unfolding nk by simp
    have d: "length (t # burst) - (N - k) = length burst - (N - Suc k)"
      using True by simp
    have tk: "take (N - k) (t # burst) = t # take (N - Suc k) burst"
      using True by (simp add: take_Cons')
    show ?thesis
      unfolding check_all_fst_snd fst_conv snd_conv list.map m d tk
      using IH al by (simp add: st)
  next
    case False
    then have kN: "k = N" using Cons.prems(4) by simp
    have al: "\<not> allowed (fst (checkLimit config requests key t))"
      using kN Cons.prems(3) by (simp add: checkLimit_allowed pr assms(1))
    have st: "stored ?rq1 key = stored requests key"
      using kN Cons.prems(3) by (simp add: checkLimit_stored pr assms(1))
    have v1: "\<forall>ts \<in> set (stored ?rq1 key). L - windowMs config < ts"
      using Cons.prems(2) by (simp add: st)
    have l1: "length (stored ?rq1 key) = k" using Cons.prems(3) by (simp add: st)
    note IH = Cons.IH [OF rest v1 l1 Cons.prems(4)]
    show ?thesis
      unfolding check_all_fst_snd fst_conv snd_conv list.map
      using IH al kN by (simp add: st)
  qed
qed

text \<open>
  C3. With \<open>maxRequests = N\<close>, \<open>N\<close> at least 1: a burst of \<open>N + 1\<close> checks of one key
  at non-decreasing clock readings less than \<open>windowMs\<close> apart, on a key whose earlier
  timestamps (if any) have all expired at the first check, admits the first \<open>N\<close> checks
  and denies the last; and a check at \<open>later\<close>, once \<open>windowMs\<close> has passed since
  the first check of the burst (so also once it has passed since the last), is admitted.
\<close>

theorem burst_admits_exactly_N:
  assumes "maxRequests config = int N" and "1 \<le> N"
    and "length burst = N + 1" and "sorted burst"
    and "last burst - hd burst < windowMs config"
    and "\<forall>ts \<in> set (stored requests key). ts \<le> hd burst - windowMs config"
    and "hd burst + windowMs config \<le> later"
  shows "map allowed (fst (check_all config requests key burst)) = replicate N True @ [False]
       \<and> allowed (fst (checkLimit config (snd (check_all config requests key burst)) key later))"
proof -
  obtain t1 rest where burst: "burst = t1 # rest"
    using assms(3) by (cases burst) simp_all
  have lrest: "length rest = N" using assms(3) burst by simp
  then have rest_ne: "rest \<noteq> []" using assms(2) by auto
  let ?L = "last burst"
  let ?rq1 = "snd (checkLimit config requests key t1)"
  have hd_le: "\<forall>t \<in> set rest. t1 \<le> t" using assms(4) burst by simp
  have le_last: "\<forall>t \<in> set burst. t \<le> ?L"
  proof
    fix t assume "t \<in> set burst"
    then obtain i where i: "i < length burst" "burst ! i = t" by (auto simp: in_set_conv_nth)
    have "burst ! i \<le> burst ! (length burst - 1)"
      using assms(4) i(1) by (intro sorted_nth_mono) simp_all
    moreover have "burst \<noteq> []" using i(1) by auto
    ultimately show "t \<le> last burst"
      using i(2) by (simp add: last_conv_nth)
  qed
  have win: "?L - windowMs config < t1" using assms(5) burst by simp
  have pr1: "pruned config requests key t1 = []"
    using assms(6) burst by (intro pruned_all_expired) simp
  have al1: "allowed (fst (checkLimit config requests key t1))"
    using assms(1,2) by (simp add: checkLimit_allowed pr1)
  have st1: "stored ?rq1 key = [t1]"
    using assms(1,2) by (simp add: checkLimit_stored pr1)
  have a: "\<forall>t \<in> set rest. ?L - windowMs config < t \<and> t \<le> ?L"
    using hd_le le_last win burst by fastforce
  have b: "\<forall>ts \<in> set (stored ?rq1 key). ?L - windowMs config < ts"
    using win by (simp add: st1)
  have c: "length (stored ?rq1 key) = 1" by (simp add: st1)
  note aux = burst_within_window [OF assms(1) a b c assms(2)]
  have flags: "map allowed (fst (check_all config ?rq1 key rest)) = replicate (N - 1) True @ [False]"
    using aux lrest assms(2) by (simp add: min_def)
  have final: "stored (snd (check_all config ?rq1 key rest)) key = t1 # take (N - 1) rest"
    using aux by (simp add: st1)
  have rep: "True # replicate (N - 1) True = replicate N True"
    using assms(2) by (cases N) simp_all
  have part1: "map allowed (fst (check_all config requests key burst)) = replicate N True @ [False]"
    unfolding burst check_all_fst_snd fst_conv list.map flags using al1 rep by simp
  have snd_eq: "snd (check_all config requests key burst) = snd (check_all config ?rq1 key rest)"
    unfolding burst check_all_fst_snd by simp
  have "t1 \<le> later - windowMs config" using assms(7) burst by simp
  then have "pruned config (snd (check_all config requests key burst)) key later
        = filter (\<lambda>ts. later - windowMs config < ts) (take (N - 1) rest)"
    by (simp add: pruned_def snd_eq final)
  then have "length (pruned config (snd (check_all config requests key burst)) key later) \<le> N - 1"
    by (metis length_filter_le length_take min.cobounded2 order_trans)
  then have part2: "allowed (fst (checkLimit config (snd (check_all config requests key burst)) key later))"
    using assms(1,2) by (simp add: checkLimit_allowed)
  from part1 part2 show ?thesis by simp
qed


theorem burst_admits_exactly_N_witness:
  "map allowed (fst (check_all config_2_per_second Map.empty ''client'' [0, 10, 20]))
     = [True, True, False]
   \<and> allowed (fst (checkLimit config_2_per_second
                (snd (check_all config_2_per_second Map.empty ''client'' [0, 10, 20]))
                ''client'' 1020))"
  using burst_admits_exactly_N [of config_2_per_second 2 "[0, 10, 20]" Map.empty "''client''" 1020]
  by (simp add: config_2_per_second_def stored_def numeral_2_eq_2)

text \<open>
  C4, as amended. \<open>remaining\<close> is \<open>max(0, maxRequests - count)\<close> for the count of
  still-valid timestamps before the decision, that is before the timestamp of this call
  is appended. For an admitted call the stored list is one longer than that count, so
  \<open>remaining = maxRequests - count_after_decision + 1\<close>; for a denied call the stored
  list is the pruned list and \<open>remaining\<close> is 0.
\<close>

theorem checkLimit_remaining_counts:
  "remaining (fst (checkLimit config requests key now))
     = max 0 (maxRequests config - int (length (pruned config requests key now)))
   \<and> (if allowed (fst (checkLimit config requests key now))
      then int (length (stored (snd (checkLimit config requests key now)) key))
             = int (length (pruned config requests key now)) + 1
         \<and> remaining (fst (checkLimit config requests key now))
             = maxRequests config - int (length (stored (snd (checkLimit config requests key now)) key)) + 1
      else stored (snd (checkLimit config requests key now)) key = pruned config requests key now
         \<and> remaining (fst (checkLimit config requests key now)) = 0)"
  by (simp add: checkLimit_allowed checkLimit_stored checkLimit_remaining)

text \<open>
  The claim C4 as it is written counts the appended timestamp: with a quota of 5 and no
  earlier request, the first check returns \<open>remaining = 5\<close> while one timestamp is
  stored after it, for which the claim's formula gives 4.
\<close>

theorem remaining_counts_after_decision_counterexample:
  "remaining (fst (checkLimit config_5_per_second Map.empty ''client'' 0)) = 5
   \<and> stored (snd (checkLimit config_5_per_second Map.empty ''client'' 0)) ''client'' = [0]
   \<and> remaining (fst (checkLimit config_5_per_second Map.empty ''client'' 0))
       \<noteq> max 0 (maxRequests config_5_per_second
                  - int (length (stored (snd (checkLimit config_5_per_second Map.empty ''client'' 0))
                                  ''client'')))"
  by (simp add: checkLimit_def Let_def stored_def config_5_per_second_def)

lemma length_filter_le_int: "int (length (filter P xs)) \<le> int (length xs)"
  by simp

lemma within_quota_step:
  assumes "0 \<le> maxRequests config" and "within_quota config requests"
  shows "within_quota config (limiter_step config requests c)"
proof (cases c)
  case (CheckLimit key now)
  show ?thesis unfolding within_quota_def
  proof
    fix k
    show "int (length (stored (limiter_step config requests c) k)) \<le> maxRequests config"
    proof (cases "k = key")
      case True
      have "int (length (pruned config requests key now)) \<le> int (length (stored requests key))"
        by (simp add: pruned_def)
      with assms(2) have "int (length (pruned config requests key now)) \<le> maxRequests config"
        unfolding within_quota_def by (meson order_trans)
      then show ?thesis using True CheckLimit by (simp add: checkLimit_stored)
    next
      case False
      then show ?thesis using assms(2) CheckLimit
        by (simp add: stored_def checkLimit_other within_quota_def)
    qed
  qed
next
  case (Reset key)
  then show ?thesis using assms
    by (auto simp: within_quota_def stored_def reset_key_def)
next
  case (Cleanup now)
  show ?thesis unfolding within_quota_def
  proof
    fix k
    have "int (length (stored (cleanup config requests now) k)) \<le> int (length (stored requests k))"
      by (simp add: cleanup_def stored_def Let_def split: option.splits)
    with assms(2) show "int (length (stored (limiter_step config requests c) k)) \<le> maxRequests config"
      using Cleanup unfolding within_quota_def by (metis limiter_step.simps(3) order_trans)
  qed
qed

lemma within_quota_foldl:
  assumes "0 \<le> maxRequests config"
  shows "within_quota config requests \<Longrightarrow> within_quota config (foldl (limiter_step config) requests calls)"
  by (induction calls arbitrary: requests) (simp_all add: within_quota_step assms)

lemma within_quota_run:
  "0 \<le> maxRequests config \<Longrightarrow> within_quota config (limiter_run config calls)"
  unfolding limiter_run_def by (rule within_quota_foldl) (simp_all add: within_quota_def stored_def)

text \<open>
  C10. For a limiter with a positive window and a non-negative quota, in any state
  reached from the empty map by checks, resets and sweeps at any clock readings: after
  \<open>checkLimit key\<close> at \<open>now\<close>, every timestamp stored for the key is strictly newer
  than \<open>now - windowMs\<close>, the stored list is no longer than \<open>maxRequests\<close>, and when
  the check is denied the stored list is exactly the old list without its expired
  entries.
\<close>

theorem checkLimit_invariant:
  assumes "0 < windowMs config" and "0 \<le> maxRequests config"
  shows "(\<forall>ts \<in> set (stored (snd (checkLimit config (limiter_run config calls) key now)) key).
            now - windowMs config < ts)
       \<and> int (length (stored (snd (checkLimit config (limiter_run config calls) key now)) key))
           \<le> maxRequests config
       \<and> (\<not> allowed (fst (checkLimit config (limiter_run config calls) key now)) \<longrightarrow>
            stored (snd (checkLimit config (limiter_run config calls) key now)) key
              = pruned config (limiter_run config calls) key now)"
proof -
  let ?requests = "limiter_run config calls"
  let ?requests' = "snd (checkLimit config ?requests key now)"
  have "?requests' = limiter_run config (calls @ [CheckLimit key now])"
    by (simp add: limiter_run_def)
  then have "within_quota config ?requests'"
    using within_quota_run [OF assms(2)] by simp
  then have len: "int (length (stored ?requests' key)) \<le> maxRequests config"
    by (simp add: within_quota_def)
  have new: "\<forall>ts \<in> set (stored ?requests' key). now - windowMs config < ts"
    using assms(1) by (auto simp: checkLimit_stored pruned_def)
  have den: "\<not> allowed (fst (checkLimit config ?requests key now)) \<longrightarrow>
               stored ?requests' key = pruned config ?requests key now"
    by (simp add: checkLimit_allowed checkLimit_stored)
  from new len den show ?thesis by blast
qed

theorem checkLimit_invariant_witness:
  "stored (snd (checkLimit config_2_per_second
                  (limiter_run config_2_per_second
                     [CheckLimit ''client'' 0, CheckLimit ''client'' 700, Cleanup 900])
                  ''client'' 1200)) ''client'' = [700, 1200]
   \<and> int (length (stored (snd (checkLimit config_2_per_second
                  (limiter_run config_2_per_second
                     [CheckLimit ''client'' 0, CheckLimit ''client'' 700, Cleanup 900])
                  ''client'' 1200)) ''client'')) \<le> maxRequests config_2_per_second
   \<and> \<not> allowed (fst (checkLimit config_2_per_second
                  (limiter_run config_2_per_second
                     [CheckLimit ''client'' 0, CheckLimit ''client'' 700, Cleanup 900,
                      CheckLimit ''client'' 1200])
                  ''client'' 1300))
   \<and> stored (snd (checkLimit config_2_per_second
                  (limiter_run config_2_per_second
                     [CheckLimit ''client'' 0, CheckLimit ''client'' 700, Cleanup 900,
                      CheckLimit ''client'' 1200])
                  ''client'' 1300)) ''client'' = [700, 1200]"
proof -
  have w: "0 < windowMs config_2_per_second" and q: "0 \<le> maxRequests config_2_per_second"
    by (simp_all add: config_2_per_second_def)
  have a: "stored (snd (checkLimit config_2_per_second
                  (limiter_run config_2_per_second
                     [CheckLimit ''client'' 0, CheckLimit ''client'' 700, Cleanup 900])
                  ''client'' 1200)) ''client'' = [700, 1200]"
    by (simp add: limiter_run_def checkLimit_def cleanup_def Let_def stored_def
          config_2_per_second_def)
  have b: "\<not> allowed (fst (checkLimit config_2_per_second
                  (limiter_run config_2_per_second
                     [CheckLimit ''client'' 0, CheckLimit ''client'' 700, Cleanup 900,
                      CheckLimit ''client'' 1200])
                  ''client'' 1300))"
    by (simp add: limiter_run_def checkLimit_def cleanup_def Let_def stored_def
          config_2_per_second_def)
  have c: "pruned config_2_per_second
             (limiter_run config_2_per_second
                [CheckLimit ''client'' 0, CheckLimit ''client'' 700, Cleanup 900,
                 CheckLimit ''client'' 1200]) ''client'' 1300 = [700, 1200]"
    by (simp add: limiter_run_def checkLimit_def cleanup_def Let_def stored_def pruned_def
          config_2_per_second_def)
  from checkLimit_invariant [OF w q, of "[CheckLimit ''client'' 0, CheckLimit ''client'' 700, Cleanup 900]"
         "''client''" 1200]
  have 1: "int (length (stored (snd (checkLimit config_2_per_second
                  (limiter_run config_2_per_second
                     [CheckLimit ''client'' 0, CheckLimit ''client'' 700, Cleanup 900])
                  ''client'' 1200)) ''client'')) \<le> maxRequests config_2_per_second"
    by blast
  from checkLimit_invariant [OF w q, of "[CheckLimit ''client'' 0, CheckLimit ''client'' 700, Cleanup 900,
         CheckLimit ''client'' 1200]" "''client''" 1300] b c
  have 2: "stored (snd (checkLimit config_2_per_second
                  (limiter_run config_2_per_second
                     [CheckLimit ''client'' 0, CheckLimit ''client'' 700, Cleanup 900,
                      CheckLimit ''client'' 1200])
                  ''client'' 1300)) ''client'' = [700, 1200]"
    by simp
  from a 1 b 2 show ?thesis by blast
qed




section \<open>Ingestion pipeline\<close>

lemma validate_rows_counts:
  "validate_rows rows validatedRows n
     = (validatedRows @ List.map_filter CSV_ROW_SCHEMA_parse rows,
        n + length (filter (\<lambda>r. CSV_ROW_SCHEMA_parse r = None) rows))"
proof (induction rows arbitrary: validatedRows n)
  case Nil
  then show ?case by (simp add: List.map_filter_simps)
next
  case (Cons row rest)
  then show ?case
    by (cases "CSV_ROW_SCHEMA_parse row") (simp_all add: List.map_filter_simps)
qed

lemma length_map_filter:
  "length (List.map_filter f xs) = length (filter (\<lambda>x. f x \<noteq> None) xs)"
  by (induction xs) (auto simp: List.map_filter_simps split: option.splits)

lemma length_filter_partition:
  "length xs = length (filter (\<lambda>x. f x \<noteq> None) xs) + length (filter (\<lambda>x. f x = None) xs)"
  by (induction xs) auto

lemma finish_counts:
  "rowCount (finish localeCompare clock rows) = length rows"
  "ParseResult.successCount (finish localeCompare clock rows)
     = length (filter (\<lambda>r. CSV_ROW_SCHEMA_parse r \<noteq> None) rows)"
  "errorCount (finish localeCompare clock rows)
     = length (filter (\<lambda>r. CSV_ROW_SCHEMA_parse r = None) rows)"
  by (simp_all add: finish_def validate_rows_counts length_map_filter)

text \<open>
  C2. Whenever \<open>processCsvFile\<close> or \<open>processExcelFile\<close> returns a result, its
  \<open>rowCount\<close> is \<open>ParseResult.successCount + errorCount\<close>, where \<open>rowCount\<close> is the number of
  parsed records, \<open>ParseResult.successCount\<close> the number of them the schema accepts and
  \<open>errorCount\<close> the number it rejects.
\<close>

theorem rowCount_is_success_plus_error:
  "(processCsvFile localeCompare clock buffer = Some (Inr result) \<longrightarrow>
      rowCount result = ParseResult.successCount result + errorCount result
      \<and> (\<exists>headers rows. parseCSVWithRegex buffer = Some (Inr (headers, rows))
            \<and> rowCount result = length rows
            \<and> ParseResult.successCount result = length (filter (\<lambda>r. CSV_ROW_SCHEMA_parse r \<noteq> None) rows)
            \<and> errorCount result = length (filter (\<lambda>r. CSV_ROW_SCHEMA_parse r = None) rows)))
   \<and> (processExcelFile xlsx localeCompare clock workbook = Inr result' \<longrightarrow>
      rowCount result' = ParseResult.successCount result' + errorCount result'
      \<and> (\<exists>rawData. xlsx workbook = Inr rawData
            \<and> rowCount result' = length (map normalize_row rawData)
            \<and> ParseResult.successCount result'
                = length (filter (\<lambda>r. CSV_ROW_SCHEMA_parse r \<noteq> None) (map normalize_row rawData))
            \<and> errorCount result'
                = length (filter (\<lambda>r. CSV_ROW_SCHEMA_parse r = None) (map normalize_row rawData))))"
proof (intro conjI impI)
  assume a: "processCsvFile localeCompare clock buffer = Some (Inr result)"
  then obtain headers rows where p: "parseCSVWithRegex buffer = Some (Inr (headers, rows))"
    and r: "result = finish localeCompare clock rows"
    by (auto simp: processCsvFile_def split: option.splits sum.splits pipeline_error.splits)
  show "rowCount result = ParseResult.successCount result + errorCount result"
    unfolding r finish_counts by (rule length_filter_partition)
  show "\<exists>headers rows. parseCSVWithRegex buffer = Some (Inr (headers, rows))
            \<and> rowCount result = length rows
            \<and> ParseResult.successCount result = length (filter (\<lambda>r. CSV_ROW_SCHEMA_parse r \<noteq> None) rows)
            \<and> errorCount result = length (filter (\<lambda>r. CSV_ROW_SCHEMA_parse r = None) rows)"
    using p unfolding r finish_counts by blast
next
  assume a: "processExcelFile xlsx localeCompare clock workbook = Inr result'"
  then obtain rawData where p: "xlsx workbook = Inr rawData"
    and r: "result' = finish localeCompare clock (map normalize_row rawData)"
    by (auto simp: processExcelFile_def split: sum.splits pipeline_error.splits)
  show "rowCount result' = ParseResult.successCount result' + errorCount result'"
    unfolding r finish_counts by (rule length_filter_partition)
  show "\<exists>rawData. xlsx workbook = Inr rawData
            \<and> rowCount result' = length (map normalize_row rawData)
            \<and> ParseResult.successCount result'
                = length (filter (\<lambda>r. CSV_ROW_SCHEMA_parse r \<noteq> None) (map normalize_row rawData))
            \<and> errorCount result'
                = length (filter (\<lambda>r. CSV_ROW_SCHEMA_parse r = None) (map normalize_row rawData))"
    using p unfolding r finish_counts by blast
qed

theorem rowCount_is_success_plus_error_witness:
  "processCsvFile compare_codes frozen_clock scenario_csv = Some (Inr scenario_result)
   \<and> rowCount scenario_result = ParseResult.successCount scenario_result + errorCount scenario_result
   \<and> processExcelFile sample_sheet compare_codes frozen_clock [] = Inr sample_sheet_result
   \<and> rowCount sample_sheet_result = ParseResult.successCount sample_sheet_result + errorCount sample_sheet_result"
proof -
  have a: "processCsvFile compare_codes frozen_clock scenario_csv = Some (Inr scenario_result)"
    by code_simp
  have b: "processExcelFile sample_sheet compare_codes frozen_clock [] = Inr sample_sheet_result"
    by code_simp
  from rowCount_is_success_plus_error
         [of compare_codes frozen_clock scenario_csv scenario_result sample_sheet "[]"
             sample_sheet_result] a b
  show ?thesis by blast
qed






















text \<open>
  The loop of \<open>parseLine\<close> returns only when its first match is not empty: a line that
  starts with a comma keeps it matching the empty text at index 0 for ever.
\<close>

lemma parseLine_loop_needs_progress:
  assumes "parseLine_loop line lastIndex vals = Some r"
  shows "lastIndex = 0 \<longrightarrow> snd (field_at line 0) \<noteq> 0"
proof (rule parseLine_loop.raw_induct
         [where P = "\<lambda>line lastIndex vals r. lastIndex = 0 \<longrightarrow> snd (field_at line 0) \<noteq> 0",
          OF _ assms])
  fix loop :: "string \<Rightarrow> nat \<Rightarrow> string list \<Rightarrow> string list option"
  fix line lastIndex vals r
  assume IH: "\<And>line lastIndex vals r. loop line lastIndex vals = Some r \<Longrightarrow>
                lastIndex = 0 \<longrightarrow> snd (field_at line 0) \<noteq> 0"
    and step: "(case pattern_exec line lastIndex of
                  None \<Rightarrow> Some vals
                | Some (v, e) \<Rightarrow> loop line e (vals @ [v])) = Some r"
  show "lastIndex = 0 \<longrightarrow> snd (field_at line 0) \<noteq> 0"
  proof (intro impI notI)
    assume z: "lastIndex = 0" and s: "snd (field_at line 0) = 0"
    have "field_at line 0 = (fst (field_at line 0), 0)" using s by (metis prod.collapse)
    then have "pattern_exec line lastIndex = Some (fst (field_at line 0), 0)"
      using z by (simp add: pattern_exec_def)
    then have "loop line 0 (vals @ [fst (field_at line 0)]) = Some r"
      using step by simp
    from IH [OF this] s show False by simp
  qed
qed

lemma parseLine_leading_comma_diverges: "parseLine (CHR '','' # rest) = None"
proof (cases "parseLine (CHR '','' # rest)")
  case None
  then show ?thesis .
next
  case (Some r)
  then have "parseLine_loop (CHR '','' # rest) 0 [] = Some r" by (simp add: parseLine_def)
  from parseLine_loop_needs_progress [OF this]
  show ?thesis by (simp add: field_at_def quote_def)
qed






end
